theory Spec2Isabelle
  imports Main "HOL-Library.Sublist"
begin

section \<open>The stored tables\<close>

text \<open>
  The forum keeps its state in one SQLite database whose tables are declared in
  \<^verbatim>\<open>schema.sql\<close>. A table is modelled as the list of its rows, in insertion order; the
  constraints of the schema (primary keys, \<^verbatim>\<open>UNIQUE\<close>) are checked by the statements that
  insert, as the engine does. A statement fails only when a constraint refuses it; faults of
  the storage medium are not modelled. Instants are integers (a linear order is all the
  code uses).

  \<^verbatim>\<open>Open\<close> hands the bare file path to \<^verbatim>\<open>sql.Open("sqlite3", path)\<close> and \<^verbatim>\<open>migrate\<close> runs
  \<^verbatim>\<open>schema.sql\<close>, which holds no \<^verbatim>\<open>PRAGMA foreign_keys\<close>: the \<^verbatim>\<open>FOREIGN KEY\<close> clauses of the
  schema are declared but not enforced on the connections this program opens, so no
  statement below consults the referenced table.
\<close>

type_synonym time = int

record user_row =
  u_id :: int
  u_email :: string
  u_username :: string
  u_password_hash :: string
  u_created_at :: time

record session_row =
  s_id :: string
  s_user_id :: int
  s_created_at :: time
  s_expires_at :: time
  s_revoked_at :: "time option"

record post_row =
  p_id :: int
  p_user_id :: int
  p_title :: string
  p_body :: string
  p_created_at :: time

record like_row =
  l_target_id :: int
  l_user_id :: int
  l_value :: int

record db =
  users :: "user_row list"
  sessions :: "session_row list"
  posts :: "post_row list"
  post_likes :: "like_row list"
  comment_likes :: "like_row list"

definition empty_db :: db where
  "empty_db = \<lparr>users = [], sessions = [], posts = [], post_likes = [], comment_likes = []\<rparr>"

datatype error =
    ErrDuplicateEmail
  | ErrDuplicateUsername
  | ErrNoRows
  | SqliteError string

section \<open>Reactions: the upsert of \<^verbatim>\<open>TogglePostLike\<close> and \<^verbatim>\<open>ToggleCommentLike\<close>\<close>

text \<open>
  \<^verbatim>\<open>INSERT INTO post_likes (post_id, user_id, value) VALUES (?, ?, ?)
   ON CONFLICT(post_id, user_id) DO UPDATE SET value = CASE
     WHEN post_likes.value = ? THEN 0 ELSE ? END\<close>
  with the arguments \<open>postID, userID, value, value, value\<close>. When a row with the key
  exists the statement rewrites its value, otherwise it appends the new row.
\<close>

definition key_matches :: "int \<Rightarrow> int \<Rightarrow> like_row \<Rightarrow> bool" where
  "key_matches t u r = (l_target_id r = t \<and> l_user_id r = u)"

definition on_conflict :: "int \<Rightarrow> like_row \<Rightarrow> like_row" where
  "on_conflict v r = r\<lparr>l_value := (if l_value r = v then 0 else v)\<rparr>"

definition toggle_upsert :: "like_row list \<Rightarrow> int \<Rightarrow> int \<Rightarrow> int \<Rightarrow> like_row list" where
  "toggle_upsert rows t u v =
     (if list_ex (key_matches t u) rows
      then map (\<lambda>r. if key_matches t u r then on_conflict v r else r) rows
      else rows @ [\<lparr>l_target_id = t, l_user_id = u, l_value = v\<rparr>])"

definition TogglePostLike :: "db \<Rightarrow> int \<Rightarrow> int \<Rightarrow> int \<Rightarrow> error option \<times> db" where
  "TogglePostLike d postID userID v =
     (None, d\<lparr>post_likes := toggle_upsert (post_likes d) postID userID v\<rparr>)"

definition ToggleCommentLike :: "db \<Rightarrow> int \<Rightarrow> int \<Rightarrow> int \<Rightarrow> error option \<times> db" where
  "ToggleCommentLike d commentID userID v =
     (None, d\<lparr>comment_likes := toggle_upsert (comment_likes d) commentID userID v\<rparr>)"

text \<open>
  Reading a pair's stance off the table: the value of the row with the key, \<open>1\<close> a like,
  \<open>-1\<close> a dislike; no row, or the value \<open>0\<close> that the \<^verbatim>\<open>CASE\<close> writes, is neutral.
\<close>

datatype stance = Neutral | Liked | Disliked

datatype press = PressLike | PressDislike

fun press_value :: "press \<Rightarrow> int" where
  "press_value PressLike = 1"
| "press_value PressDislike = - 1"

definition stored_value :: "like_row list \<Rightarrow> int \<Rightarrow> int \<Rightarrow> int option" where
  "stored_value rows t u = map_option l_value (find (key_matches t u) rows)"

definition stance_of :: "like_row list \<Rightarrow> int \<Rightarrow> int \<Rightarrow> stance" where
  "stance_of rows t u =
     (case stored_value rows t u of
        None \<Rightarrow> Neutral
      | Some v \<Rightarrow> if v = 1 then Liked else if v = - 1 then Disliked else Neutral)"

text \<open>The transition table of the specification, written from its words.\<close>

fun spec_step :: "stance \<Rightarrow> press \<Rightarrow> stance" where
  "spec_step Neutral PressLike = Liked"
| "spec_step Neutral PressDislike = Disliked"
| "spec_step Liked PressLike = Neutral"
| "spec_step Liked PressDislike = Disliked"
| "spec_step Disliked PressLike = Liked"
| "spec_step Disliked PressDislike = Neutral"

section \<open>Reactions, second variant: \<^verbatim>\<open>ToggleLike\<close> of \<^verbatim>\<open>utils/posts.go\<close>\<close>

text \<open>
  \<^verbatim>\<open>DELETE FROM interactions WHERE user_uuid = ? AND post_id = ?\<close>, then
  \<^verbatim>\<open>INSERT INTO interactions (user_uuid, post_id, liked, disliked) VALUES (?, ?, ?, ?)\<close>,
  both under the write lock, with no transaction around them.

  The declaration of the table \<^verbatim>\<open>interactions\<close> is not among the sources, so what its
  constraints make of an insert is a parameter: \<open>admits new rows\<close> is \<open>None\<close> when the row
  is accepted into \<open>rows\<close>, and the engine's message when it is refused. A row has the
  four columns the statements name.
\<close>

record interaction_row =
  i_user_uuid :: string
  i_post_id :: int
  i_liked :: bool
  i_disliked :: bool

type_synonym admits = "interaction_row \<Rightarrow> interaction_row list \<Rightarrow> string option"

definition same_pair :: "string \<Rightarrow> int \<Rightarrow> interaction_row \<Rightarrow> bool" where
  "same_pair userUUID postID r = (i_user_uuid r = userUUID \<and> i_post_id r = postID)"

definition ToggleLike ::
  "admits \<Rightarrow> interaction_row list \<Rightarrow> string \<Rightarrow> int \<Rightarrow> bool \<Rightarrow> error option \<times> interaction_row list" where
  "ToggleLike adm rows userUUID postID like =
     (let rows1 = filter (\<lambda>r. \<not> same_pair userUUID postID r) rows;
          liked = (if like then True else False);
          disliked = (if like then False else True);
          new = \<lparr>i_user_uuid = userUUID, i_post_id = postID, i_liked = liked, i_disliked = disliked\<rparr>
      in case adm new rows1 of
           Some msg \<Rightarrow> (Some (SqliteError msg), rows1)
         | None \<Rightarrow> (None, rows1 @ [new]))"

text \<open>
  \<^verbatim>\<open>GetPosts\<close> reads the rows of a post and files each under likes when \<open>liked\<close> is set,
  else under dislikes when \<open>disliked\<close> is set. The stance of a pair is read the same way.
\<close>

definition pair_rows :: "interaction_row list \<Rightarrow> string \<Rightarrow> int \<Rightarrow> interaction_row list" where
  "pair_rows rows userUUID postID = filter (same_pair userUUID postID) rows"

definition holds_liked :: "interaction_row list \<Rightarrow> string \<Rightarrow> int \<Rightarrow> bool" where
  "holds_liked rows userUUID postID = list_ex i_liked (pair_rows rows userUUID postID)"

definition holds_disliked :: "interaction_row list \<Rightarrow> string \<Rightarrow> int \<Rightarrow> bool" where
  "holds_disliked rows userUUID postID = list_ex i_disliked (pair_rows rows userUUID postID)"

text \<open>A sequence of calls; the store keeps what each call left, also after an error.\<close>

fun ToggleLike_seq ::
  "admits \<Rightarrow> interaction_row list \<Rightarrow> (string \<times> int \<times> bool) list \<Rightarrow> interaction_row list" where
  "ToggleLike_seq adm rows [] = rows"
| "ToggleLike_seq adm rows ((u, p, like) # ops) =
     ToggleLike_seq adm (snd (ToggleLike adm rows u p like)) ops"

text \<open>The same sequence, stopping at the first call that returns an error.\<close>

fun ToggleLike_all ::
  "admits \<Rightarrow> interaction_row list \<Rightarrow> (string \<times> int \<times> bool) list \<Rightarrow> error + interaction_row list" where
  "ToggleLike_all adm rows [] = Inr rows"
| "ToggleLike_all adm rows ((u, p, like) # ops) =
     (case ToggleLike adm rows u p like of
        (Some e, _) \<Rightarrow> Inl e
      | (None, rows') \<Rightarrow> ToggleLike_all adm rows' ops)"

section \<open>Sequences of toggles on the first variant\<close>

datatype target_kind = Post | Comment

fun toggle :: "db \<Rightarrow> target_kind \<times> int \<times> int \<times> int \<Rightarrow> db" where
  "toggle d (Post, t, u, v) = snd (TogglePostLike d t u v)"
| "toggle d (Comment, t, u, v) = snd (ToggleCommentLike d t u v)"

fun run_toggles :: "db \<Rightarrow> (target_kind \<times> int \<times> int \<times> int) list \<Rightarrow> db" where
  "run_toggles d [] = d"
| "run_toggles d (x # xs) = run_toggles (toggle d x) xs"

definition likes_of :: "db \<Rightarrow> target_kind \<Rightarrow> like_row list" where
  "likes_of d k = (case k of Post \<Rightarrow> post_likes d | Comment \<Rightarrow> comment_likes d)"

definition holds_like :: "like_row list \<Rightarrow> int \<Rightarrow> int \<Rightarrow> bool" where
  "holds_like rows t u = list_ex (\<lambda>r. key_matches t u r \<and> l_value r = 1) rows"

definition holds_dislike :: "like_row list \<Rightarrow> int \<Rightarrow> int \<Rightarrow> bool" where
  "holds_dislike rows t u = list_ex (\<lambda>r. key_matches t u r \<and> l_value r = - 1) rows"

definition like_key :: "like_row \<Rightarrow> int \<times> int" where
  "like_key r = (l_target_id r, l_user_id r)"

definition pair_key :: "interaction_row \<Rightarrow> string \<times> int" where
  "pair_key r = (i_user_uuid r, i_post_id r)"

section \<open>Users: \<^verbatim>\<open>CreateUser\<close> and \<^verbatim>\<open>GetUserByEmail\<close>\<close>

text \<open>
  \<^verbatim>\<open>INSERT INTO users (email, username, password_hash) VALUES (?, ?, ?)\<close>. The columns
  \<open>email\<close> and \<open>username\<close> are \<^verbatim>\<open>UNIQUE\<close>; the engine refuses the row with the message
  \<^verbatim>\<open>UNIQUE constraint failed: users.<column>\<close> of the first index it finds violated. The
  source does not fix which index is looked at first, so that is the parameter
  \<open>email_first\<close>. The key is \<^verbatim>\<open>AUTOINCREMENT\<close> and rows are never deleted, so a new row gets
  the largest key so far plus one.
\<close>

definition msg_users_email :: string where
  "msg_users_email = ''UNIQUE constraint failed: users.email''"

definition msg_users_username :: string where
  "msg_users_username = ''UNIQUE constraint failed: users.username''"

definition next_id :: "int list \<Rightarrow> int" where
  "next_id ids = fold max ids 0 + 1"

definition insert_user ::
  "bool \<Rightarrow> db \<Rightarrow> time \<Rightarrow> string \<Rightarrow> string \<Rightarrow> string \<Rightarrow> string option \<times> db" where
  "insert_user email_first d now email username passwordHash =
     (let email_taken = list_ex (\<lambda>r. u_email r = email) (users d);
          name_taken = list_ex (\<lambda>r. u_username r = username) (users d)
      in if email_taken \<and> (email_first \<or> \<not> name_taken) then (Some msg_users_email, d)
         else if name_taken then (Some msg_users_username, d)
         else (None, d\<lparr>users := users d @
                 [\<lparr>u_id = next_id (map u_id (users d)), u_email = email, u_username = username,
                   u_password_hash = passwordHash, u_created_at = now\<rparr>]\<rparr>))"

text \<open>\<^verbatim>\<open>strings.Contains(s, substr)\<close>: \<open>substr\<close> occurs in \<open>s\<close> at some position.\<close>

fun strings_Contains :: "string \<Rightarrow> string \<Rightarrow> bool" where
  "strings_Contains [] substr = (substr = [])"
| "strings_Contains (c # s) substr = (prefix substr (c # s) \<or> strings_Contains s substr)"

definition CreateUser ::
  "bool \<Rightarrow> db \<Rightarrow> time \<Rightarrow> string \<Rightarrow> string \<Rightarrow> string \<Rightarrow> error option \<times> db" where
  "CreateUser email_first d now email username passwordHash =
     (case insert_user email_first d now email username passwordHash of
        (None, d') \<Rightarrow> (None, d')
      | (Some str, d') \<Rightarrow>
          (if str \<noteq> [] \<and> strings_Contains str ''UNIQUE constraint failed: users.email''
             then Some ErrDuplicateEmail
           else if str \<noteq> [] \<and> strings_Contains str ''UNIQUE constraint failed: users.username''
             then Some ErrDuplicateUsername
           else Some (SqliteError str), d'))"

definition GetUserByEmail :: "db \<Rightarrow> string \<Rightarrow> error + user_row" where
  "GetUserByEmail d email =
     (case find (\<lambda>r. u_email r = email) (users d) of
        None \<Rightarrow> Inl ErrNoRows
      | Some u \<Rightarrow> Inr u)"

section \<open>Sessions: \<^verbatim>\<open>CreateSession\<close>, \<^verbatim>\<open>GetSession\<close>, \<^verbatim>\<open>currentUser\<close>\<close>

text \<open>
  \<^verbatim>\<open>UPDATE sessions SET revoked_at = CURRENT_TIMESTAMP WHERE user_id = ? AND revoked_at IS NULL\<close>
\<close>

definition revoke_user_sessions :: "session_row list \<Rightarrow> time \<Rightarrow> int \<Rightarrow> session_row list" where
  "revoke_user_sessions rows now userID =
     map (\<lambda>s. if s_user_id s = userID \<and> s_revoked_at s = None
               then s\<lparr>s_revoked_at := Some now\<rparr> else s) rows"

text \<open>
  \<^verbatim>\<open>INSERT INTO sessions (id, user_id, expires_at) VALUES (?, ?, ?)\<close>: \<open>id\<close> is the primary
  key, \<open>created_at\<close> defaults to the current time and \<open>revoked_at\<close> to \<^verbatim>\<open>NULL\<close>.
\<close>

definition msg_sessions_id :: string where
  "msg_sessions_id = ''UNIQUE constraint failed: sessions.id''"

definition insert_session ::
  "session_row list \<Rightarrow> time \<Rightarrow> string \<Rightarrow> int \<Rightarrow> time \<Rightarrow> error + session_row list" where
  "insert_session rows now sessionID userID expires =
     (if list_ex (\<lambda>s. s_id s = sessionID) rows then Inl (SqliteError msg_sessions_id)
      else Inr (rows @ [\<lparr>s_id = sessionID, s_user_id = userID, s_created_at = now,
                         s_expires_at = expires, s_revoked_at = None\<rparr>]))"

text \<open>
  \<^verbatim>\<open>CreateSession\<close> runs the two statements one after the other on the connection, with no
  transaction: when the second fails, what the first wrote stays.
\<close>

definition CreateSession :: "db \<Rightarrow> time \<Rightarrow> int \<Rightarrow> string \<Rightarrow> time \<Rightarrow> error option \<times> db" where
  "CreateSession d now userID sessionID expires =
     (let d1 = d\<lparr>sessions := revoke_user_sessions (sessions d) now userID\<rparr>
      in case insert_session (sessions d1) now sessionID userID expires of
           Inl e \<Rightarrow> (Some e, d1)
         | Inr rows \<Rightarrow> (None, d1\<lparr>sessions := rows\<rparr>))"

definition GetSession :: "db \<Rightarrow> string \<Rightarrow> error + session_row" where
  "GetSession d sid =
     (case find (\<lambda>s. s_id s = sid) (sessions d) of
        None \<Rightarrow> Inl ErrNoRows
      | Some s \<Rightarrow> Inr s)"

text \<open>
  \<^verbatim>\<open>currentUser\<close>: the request's session cookie (absent: \<open>None\<close>), then
  \<^verbatim>\<open>err != nil || sess.RevokedAt != nil || sess.ExpiresAt.Before(time.Now())\<close>, then the
  user row of the session's \<open>user_id\<close>.
\<close>

definition currentUser :: "db \<Rightarrow> time \<Rightarrow> string option \<Rightarrow> user_row option" where
  "currentUser d now cookie =
     (case cookie of
        None \<Rightarrow> None
      | Some v \<Rightarrow>
          (case GetSession d v of
             Inl e \<Rightarrow> None
           | Inr sess \<Rightarrow>
               if s_revoked_at sess \<noteq> None \<or> s_expires_at sess < now then None
               else find (\<lambda>u. u_id u = s_user_id sess) (users d)))"

definition active_sessions :: "db \<Rightarrow> int \<Rightarrow> session_row list" where
  "active_sessions d userID =
     filter (\<lambda>s. s_user_id s = userID \<and> s_revoked_at s = None) (sessions d)"

text \<open>Logins of one user in a row: each call's instant, session id and expiry.\<close>

fun issue_all :: "db \<Rightarrow> int \<Rightarrow> (time \<times> string \<times> time) list \<Rightarrow> error + db" where
  "issue_all d userID [] = Inr d"
| "issue_all d userID ((now, sid, expires) # cs) =
     (case CreateSession d now userID sid expires of
        (Some e, d') \<Rightarrow> Inl e
      | (None, d') \<Rightarrow> issue_all d' userID cs)"

section \<open>The handlers\<close>

text \<open>
  A handler takes the store, the clock and the request and gives the response and the
  store it leaves. Of a response the status, the redirect target and the cookie written
  are kept. Form fields that the handler passes through \<^verbatim>\<open>atoi\<close> are given as the integers
  \<^verbatim>\<open>atoi\<close> returned.
\<close>

datatype http_method = GET | POST | OtherMethod

datatype location = ToRoot | ToLogin | ToPost int

datatype cookie = SessionCookie string time | ClearCookie

record response =
  status :: nat
  redirect :: "location option"
  set_cookie :: "cookie option"

definition http_Error :: "nat \<Rightarrow> response" where
  "http_Error code = \<lparr>status = code, redirect = None, set_cookie = None\<rparr>"

definition http_Redirect :: "location \<Rightarrow> response" where
  "http_Redirect l = \<lparr>status = 303, redirect = Some l, set_cookie = None\<rparr>"

text \<open>
  \<^verbatim>\<open>handleLogin\<close>, the \<^verbatim>\<open>POST\<close> branch. \<open>pw_ok hash password\<close> stands for
  \<^verbatim>\<open>bcrypt.CompareHashAndPassword\<close> returning nil, \<open>sid\<close> for \<^verbatim>\<open>uuid.NewString()\<close>.
\<close>

definition handleLogin ::
  "(string \<Rightarrow> string \<Rightarrow> bool) \<Rightarrow> db \<Rightarrow> time \<Rightarrow> string \<Rightarrow> http_method \<Rightarrow> string \<Rightarrow> string
     \<Rightarrow> response \<times> db" where
  "handleLogin pw_ok d now sid m email password =
     (case m of
        GET \<Rightarrow> (\<lparr>status = 200, redirect = None, set_cookie = None\<rparr>, d)
      | POST \<Rightarrow>
          (case GetUserByEmail d email of
             Inl e \<Rightarrow> (http_Error 400, d)
           | Inr user \<Rightarrow>
               if \<not> pw_ok (u_password_hash user) password then (http_Error 400, d)
               else
                 let expires = now + 24 * 3600 in
                 (case CreateSession d now (u_id user) sid expires of
                    (Some e, d') \<Rightarrow> (http_Error 500, d')
                  | (None, d') \<Rightarrow>
                      (\<lparr>status = 303, redirect = Some ToRoot,
                        set_cookie = Some (SessionCookie sid expires)\<rparr>, d')))
      | OtherMethod \<Rightarrow> (http_Error 405, d))"

text \<open>
  \<^verbatim>\<open>handleLogout\<close>:
  \<^verbatim>\<open>UPDATE sessions SET revoked_at = CURRENT_TIMESTAMP WHERE id = ?\<close>, its result dropped.
\<close>

definition revoke_session :: "session_row list \<Rightarrow> time \<Rightarrow> string \<Rightarrow> session_row list" where
  "revoke_session rows now sid =
     map (\<lambda>s. if s_id s = sid then s\<lparr>s_revoked_at := Some now\<rparr> else s) rows"

definition handleLogout :: "db \<Rightarrow> time \<Rightarrow> http_method \<Rightarrow> string option \<Rightarrow> response \<times> db" where
  "handleLogout d now m cookie =
     (if m \<noteq> POST then (http_Error 405, d)
      else case cookie of
             Some v \<Rightarrow> (\<lparr>status = 303, redirect = Some ToRoot, set_cookie = Some ClearCookie\<rparr>,
                        d\<lparr>sessions := revoke_session (sessions d) now v\<rparr>)
           | None \<Rightarrow> (http_Redirect ToRoot, d))"

text \<open>\<^verbatim>\<open>handlePostLike\<close>, and the route \<^verbatim>\<open>/post/like\<close> that wraps it in \<^verbatim>\<open>requireAuth\<close>.\<close>

definition handlePostLike :: "db \<Rightarrow> http_method \<Rightarrow> user_row \<Rightarrow> int \<Rightarrow> int \<Rightarrow> response \<times> db" where
  "handlePostLike d m user postID v =
     (if m \<noteq> POST then (http_Error 405, d)
      else if v \<noteq> 1 \<and> v \<noteq> - 1 then (http_Error 400, d)
      else case TogglePostLike d postID (u_id user) v of
             (Some e, d') \<Rightarrow> (http_Error 500, d')
           | (None, d') \<Rightarrow> (http_Redirect (ToPost postID), d'))"

definition requireAuth ::
  "(db \<Rightarrow> user_row \<Rightarrow> response \<times> db) \<Rightarrow> db \<Rightarrow> time \<Rightarrow> string option \<Rightarrow> response \<times> db" where
  "requireAuth next d now cookie =
     (case currentUser d now cookie of
        None \<Rightarrow> (http_Redirect ToLogin, d)
      | Some user \<Rightarrow> next d user)"

definition route_post_like ::
  "db \<Rightarrow> time \<Rightarrow> string option \<Rightarrow> http_method \<Rightarrow> int \<Rightarrow> int \<Rightarrow> response \<times> db" where
  "route_post_like d now cookie m postID v =
     requireAuth (\<lambda>d' user. handlePostLike d' m user postID v) d now cookie"

text \<open>\<^verbatim>\<open>GetPost\<close>, as far as finding the row: this is how \<^verbatim>\<open>handlePost\<close> answers 404.\<close>

definition GetPost :: "db \<Rightarrow> int \<Rightarrow> error + post_row" where
  "GetPost d pid =
     (case find (\<lambda>p. p_id p = pid) (posts d) of
        None \<Rightarrow> Inl ErrNoRows
      | Some p \<Rightarrow> Inr p)"

section \<open>Notions the properties are stated with\<close>

text \<open>
  The values a stored reaction may carry; a table of interactions with one row for each
  pair and exactly one flag set in each row; the row \<^verbatim>\<open>ToggleLike\<close> inserts; a pair that
  holds a like or a dislike; and the session row a login inserts.
\<close>

definition three_valued :: "like_row list \<Rightarrow> bool" where
  "three_valued rows = list_all (\<lambda>r. l_value r = 1 \<or> l_value r = - 1 \<or> l_value r = 0) rows"

definition one_sided :: "interaction_row list \<Rightarrow> bool" where
  "one_sided rows = (distinct (map pair_key rows) \<and> list_all (\<lambda>r. i_liked r \<noteq> i_disliked r) rows)"

definition new_interaction :: "string \<Rightarrow> int \<Rightarrow> bool \<Rightarrow> interaction_row" where
  "new_interaction u p like = \<lparr>i_user_uuid = u, i_post_id = p, i_liked = like, i_disliked = \<not> like\<rparr>"

definition stance_set :: "interaction_row list \<Rightarrow> string \<Rightarrow> int \<Rightarrow> bool" where
  "stance_set rows u p = (holds_liked rows u p \<or> holds_disliked rows u p)"

definition issued :: "int \<Rightarrow> time \<times> string \<times> time \<Rightarrow> session_row" where
  "issued userID c = \<lparr>s_id = fst (snd c), s_user_id = userID, s_created_at = fst c,
                       s_expires_at = snd (snd c), s_revoked_at = None\<rparr>"

section \<open>Properties of the upsert\<close>

lemma find_map_same_key:
  "find (key_matches t u) (map (\<lambda>r. if key_matches t u r then on_conflict v r else r) rows)
     = map_option (on_conflict v) (find (key_matches t u) rows)"
  by (induction rows) (auto simp: key_matches_def on_conflict_def)

lemma find_append_new:
  "\<not> list_ex (key_matches t u) rows \<Longrightarrow>
   find (key_matches t u) (rows @ [\<lparr>l_target_id = t, l_user_id = u, l_value = v\<rparr>])
     = Some \<lparr>l_target_id = t, l_user_id = u, l_value = v\<rparr>"
  by (induction rows) (auto simp: key_matches_def)

lemma find_none_iff_not_ex: "find P xs = None \<longleftrightarrow> \<not> list_ex P xs"
  by (induction xs) auto

lemma stored_value_upsert_same:
  "stored_value (toggle_upsert rows t u v) t u =
     (case stored_value rows t u of
        None \<Rightarrow> Some v
      | Some w \<Rightarrow> Some (if w = v then 0 else v))"
proof (cases "list_ex (key_matches t u) rows")
  case True
  then obtain r where r: "find (key_matches t u) rows = Some r"
    using find_none_iff_not_ex [of "key_matches t u" rows] by (cases "find (key_matches t u) rows") auto
  show ?thesis
    using True r by (simp add: stored_value_def toggle_upsert_def find_map_same_key on_conflict_def)
next
  case False
  then have "find (key_matches t u) rows = None"
    by (simp add: find_none_iff_not_ex)
  with False show ?thesis
    by (simp add: stored_value_def toggle_upsert_def find_append_new)
qed

lemma stance_upsert_step:
  "stance_of (toggle_upsert rows t u (press_value e)) t u = spec_step (stance_of rows t u) e"
  by (cases e) (auto simp: stance_of_def stored_value_upsert_same split: option.splits)

lemma stored_value_upsert_other:
  "(t', u') \<noteq> (t, u) \<Longrightarrow> stored_value (toggle_upsert rows t u v) t' u' = stored_value rows t' u'"
proof -
  assume ne: "(t', u') \<noteq> (t, u)"
  have m: "find (key_matches t' u') (map (\<lambda>r. if key_matches t u r then on_conflict v r else r) rows)
             = find (key_matches t' u') rows"
    using ne by (induction rows) (auto simp: key_matches_def on_conflict_def)
  have a: "find (key_matches t' u') (rows @ [\<lparr>l_target_id = t, l_user_id = u, l_value = v\<rparr>])
             = find (key_matches t' u') rows"
    using ne by (induction rows) (auto simp: key_matches_def)
  show ?thesis
    by (simp add: stored_value_def toggle_upsert_def m a)
qed

section \<open>The toggle state machine\<close>

text \<open>
  C1. One call of \<^verbatim>\<open>TogglePostLike\<close> or \<^verbatim>\<open>ToggleCommentLike\<close> with the value of a press
  returns no error and moves the pair's stance as the transition table says, whatever the
  store held: the same stance again gives neutral, anything else gives the requested
  stance. From a neutral pair, like twice is neutral again, like then dislike is
  disliked, and one more dislike is neutral.
\<close>

theorem toggle_state_machine:
  "fst (TogglePostLike d t u (press_value e)) = None
   \<and> stance_of (post_likes (snd (TogglePostLike d t u (press_value e)))) t u
       = spec_step (stance_of (post_likes d) t u) e
   \<and> fst (ToggleCommentLike d t u (press_value e)) = None
   \<and> stance_of (comment_likes (snd (ToggleCommentLike d t u (press_value e)))) t u
       = spec_step (stance_of (comment_likes d) t u) e
   \<and> (stance_of (likes_of d k) t u = Neutral \<longrightarrow>
        stance_of (likes_of (run_toggles d [(k, t, u, 1), (k, t, u, 1)]) k) t u = Neutral
      \<and> stance_of (likes_of (run_toggles d [(k, t, u, 1), (k, t, u, - 1)]) k) t u = Disliked
      \<and> stance_of (likes_of (run_toggles d [(k, t, u, 1), (k, t, u, - 1), (k, t, u, - 1)]) k) t u
          = Neutral)"
proof -
  have like: "stance_of (toggle_upsert rows t u 1) t u = spec_step (stance_of rows t u) PressLike"
    for rows using stance_upsert_step [of rows t u PressLike] by simp
  have dislike: "stance_of (toggle_upsert rows t u (- 1)) t u = spec_step (stance_of rows t u) PressDislike"
    for rows using stance_upsert_step [of rows t u PressDislike] by simp
  have trips: "stance_of (likes_of d k) t u = Neutral \<Longrightarrow>
        stance_of (likes_of (run_toggles d [(k, t, u, 1), (k, t, u, 1)]) k) t u = Neutral
      \<and> stance_of (likes_of (run_toggles d [(k, t, u, 1), (k, t, u, - 1)]) k) t u = Disliked
      \<and> stance_of (likes_of (run_toggles d [(k, t, u, 1), (k, t, u, - 1), (k, t, u, - 1)]) k) t u
          = Neutral"
    by (cases k) (simp_all add: likes_of_def TogglePostLike_def ToggleCommentLike_def like dislike)
  show ?thesis
    using trips by (simp add: TogglePostLike_def ToggleCommentLike_def stance_upsert_step)
qed

theorem toggle_state_machine_witness:
  "stance_of (likes_of empty_db Post) 7 3 = Neutral
   \<and> stance_of (likes_of (run_toggles empty_db [(Post, 7, 3, 1), (Post, 7, 3, 1)]) Post) 7 3 = Neutral
   \<and> stance_of (likes_of (run_toggles empty_db [(Post, 7, 3, 1), (Post, 7, 3, - 1)]) Post) 7 3
       = Disliked
   \<and> stance_of (likes_of (run_toggles empty_db
        [(Post, 7, 3, 1), (Post, 7, 3, - 1), (Post, 7, 3, - 1)]) Post) 7 3 = Neutral"
proof -
  have n: "stance_of (likes_of empty_db Post) 7 3 = Neutral"
    by (simp add: stance_of_def stored_value_def likes_of_def empty_db_def)
  show ?thesis
    using n toggle_state_machine [of empty_db 7 3 PressLike Post] by simp
qed

section \<open>One row for each pair\<close>

lemma like_key_on_conflict: "like_key (on_conflict v r) = like_key r"
  by (simp add: like_key_def on_conflict_def)

lemma key_matches_like_key: "key_matches t u r \<longleftrightarrow> like_key r = (t, u)"
  by (auto simp: key_matches_def like_key_def)

lemma keys_upsert_conflict:
  "map like_key (map (\<lambda>r. if key_matches t u r then on_conflict v r else r) rows)
     = map like_key rows"
  by (induction rows) (simp_all add: like_key_on_conflict)

lemma distinct_keys_upsert:
  assumes "distinct (map like_key rows)"
  shows "distinct (map like_key (toggle_upsert rows t u v))"
proof (cases "list_ex (key_matches t u) rows")
  case True
  then have "toggle_upsert rows t u v
      = map (\<lambda>r. if key_matches t u r then on_conflict v r else r) rows"
    by (simp add: toggle_upsert_def)
  then show ?thesis
    using assms by (simp only: keys_upsert_conflict)
next
  case False
  then have "(t, u) \<notin> like_key ` set rows"
    by (auto simp: list_ex_iff key_matches_like_key)
  with False assms show ?thesis
    by (simp add: toggle_upsert_def like_key_def)
qed

lemma distinct_keys_toggle:
  assumes "distinct (map like_key (post_likes d))" and "distinct (map like_key (comment_likes d))"
  shows "distinct (map like_key (post_likes (toggle d x)))
         \<and> distinct (map like_key (comment_likes (toggle d x)))"
proof -
  obtain k t u v where x: "x = (k, t, u, v)" by (cases x) auto
  show ?thesis
    using assms unfolding x
    by (cases k) (simp_all add: TogglePostLike_def ToggleCommentLike_def distinct_keys_upsert)
qed

lemma distinct_keys_run:
  "distinct (map like_key (post_likes d)) \<Longrightarrow> distinct (map like_key (comment_likes d)) \<Longrightarrow>
   distinct (map like_key (post_likes (run_toggles d ops)))
   \<and> distinct (map like_key (comment_likes (run_toggles d ops)))"
proof (induction ops arbitrary: d)
  case Nil
  then show ?case by simp
next
  case (Cons x ops)
  from distinct_keys_toggle [OF Cons.prems, of x] Cons.IH [of "toggle d x"]
  show ?case by simp
qed

lemma distinct_keys_likes_of:
  "distinct (map like_key (likes_of (run_toggles empty_db ops) k))"
  using distinct_keys_run [of empty_db ops]
  by (cases k) (simp_all add: likes_of_def empty_db_def)

lemma never_both_values:
  assumes "distinct (map like_key rows)"
  shows "\<not> (holds_like rows t u \<and> holds_dislike rows t u)"
proof
  assume "holds_like rows t u \<and> holds_dislike rows t u"
  then obtain r1 r2 where r1: "r1 \<in> set rows" "like_key r1 = (t, u)" "l_value r1 = 1"
    and r2: "r2 \<in> set rows" "like_key r2 = (t, u)" "l_value r2 = - 1"
    by (auto simp: holds_like_def holds_dislike_def list_ex_iff key_matches_like_key)
  from assms have "inj_on like_key (set rows)"
    by (simp add: distinct_map)
  with r1 r2 have "r1 = r2"
    using inj_onD [of like_key "set rows" r1 r2] by simp
  with r1 r2 show False by simp
qed

section \<open>The delete-then-insert variant\<close>

lemma same_pair_pair_key: "same_pair u p r \<longleftrightarrow> pair_key r = (u, p)"
  by (auto simp: same_pair_def pair_key_def)

lemma one_sided_ToggleLike:
  assumes "one_sided rows"
  shows "one_sided (snd (ToggleLike adm rows u p like))"
proof -
  let ?rows1 = "filter (\<lambda>r. \<not> same_pair u p r) rows"
  have d: "distinct (map pair_key ?rows1)"
    using assms by (simp add: one_sided_def distinct_map_filter)
  have a: "list_all (\<lambda>r. i_liked r \<noteq> i_disliked r) ?rows1"
    using assms by (auto simp: one_sided_def list_all_iff)
  have n: "(u, p) \<notin> pair_key ` set ?rows1"
    by (auto simp: same_pair_pair_key)
  show ?thesis
    using d a n
    by (auto simp: ToggleLike_def Let_def one_sided_def pair_key_def split: option.splits)
qed

lemma one_sided_seq: "one_sided rows \<Longrightarrow> one_sided (ToggleLike_seq adm rows ops)"
proof (induction ops arbitrary: rows)
  case Nil
  then show ?case by simp
next
  case (Cons x ops)
  obtain u p like where x: "x = (u, p, like)" by (cases x) auto
  from Cons.prems have "one_sided (snd (ToggleLike adm rows u p like))"
    by (rule one_sided_ToggleLike)
  then show ?case
    unfolding x by (simp add: Cons.IH)
qed

lemma never_both_flags:
  assumes "one_sided rows"
  shows "\<not> (holds_liked rows u p \<and> holds_disliked rows u p)"
proof
  assume "holds_liked rows u p \<and> holds_disliked rows u p"
  then obtain r1 r2 where r1: "r1 \<in> set rows" "pair_key r1 = (u, p)" "i_liked r1"
    and r2: "r2 \<in> set rows" "pair_key r2 = (u, p)" "i_disliked r2"
    by (auto simp: holds_liked_def holds_disliked_def pair_rows_def list_ex_iff same_pair_pair_key)
  from assms have "inj_on pair_key (set rows)"
    by (simp add: one_sided_def distinct_map)
  with r1 r2 have "r1 = r2"
    using inj_onD [of pair_key "set rows" r1 r2] by simp
  moreover from assms r1 have "i_liked r1 \<noteq> i_disliked r1"
    by (auto simp: one_sided_def list_all_iff)
  ultimately show False
    using r1 r2 by simp
qed

section \<open>Mutual exclusion of like and dislike\<close>

text \<open>
  C8. Start with empty tables and run any sequence of toggles, on posts and comments, with
  any values. After every prefix of the sequence (\<open>take n\<close>), no pair holds a like and a
  dislike at once. The same is true of the delete-then-insert variant, for any constraints
  of its table and also when some of its calls fail.
\<close>

theorem like_dislike_exclusive:
  "\<not> (holds_like (likes_of (run_toggles empty_db (take n ops)) k) t u
       \<and> holds_dislike (likes_of (run_toggles empty_db (take n ops)) k) t u)
   \<and> \<not> (holds_liked (ToggleLike_seq adm [] (take m calls)) userUUID postID
       \<and> holds_disliked (ToggleLike_seq adm [] (take m calls)) userUUID postID)"
proof -
  have "one_sided []"
    by (simp add: one_sided_def)
  then have "one_sided (ToggleLike_seq adm [] (take m calls))"
    by (rule one_sided_seq)
  then show ?thesis
    using never_both_values [OF distinct_keys_likes_of] never_both_flags by blast
qed

theorem like_dislike_exclusive_witness:
  "holds_dislike (likes_of (run_toggles empty_db (take 2 [(Post, 7, 3, 1), (Post, 7, 3, - 1)])) Post) 7 3
   \<and> \<not> holds_like (likes_of (run_toggles empty_db (take 2 [(Post, 7, 3, 1), (Post, 7, 3, - 1)])) Post) 7 3
   \<and> holds_disliked (ToggleLike_seq (\<lambda>r rs. None) [] (take 2 [(''a'', 7, True), (''a'', 7, False)])) ''a'' 7
   \<and> \<not> holds_liked (ToggleLike_seq (\<lambda>r rs. None) [] (take 2 [(''a'', 7, True), (''a'', 7, False)])) ''a'' 7"
proof -
  have a: "holds_dislike (likes_of (run_toggles empty_db (take 2 [(Post, 7, 3, 1), (Post, 7, 3, - 1)])) Post) 7 3"
    by (simp add: holds_dislike_def likes_of_def empty_db_def TogglePostLike_def toggle_upsert_def
        key_matches_def on_conflict_def)
  have b: "holds_disliked (ToggleLike_seq (\<lambda>r rs. None) [] (take 2 [(''a'', 7, True), (''a'', 7, False)])) ''a'' 7"
    by (simp add: holds_disliked_def pair_rows_def ToggleLike_def same_pair_def)
  show ?thesis
    using a b
      like_dislike_exclusive [of 2 "[(Post, 7, 3, 1), (Post, 7, 3, - 1)]" Post 7 3
        "\<lambda>r rs. None" 2 "[(''a'', 7, True), (''a'', 7, False)]" "''a''" 7]
    by blast
qed

section \<open>How a neutral stance is stored\<close>

lemma likes_of_toggle:
  "likes_of (toggle d (k', t, u, v)) k
     = (if k' = k then toggle_upsert (likes_of d k) t u v else likes_of d k)"
  by (cases k; cases k') (simp_all add: likes_of_def TogglePostLike_def ToggleCommentLike_def)

lemma row_kept_on_conflict:
  "list_ex (key_matches t u) (map (\<lambda>r. if key_matches t' u' r then on_conflict v r else r) rows)
     = list_ex (key_matches t u) rows"
  by (induction rows) (simp_all add: key_matches_def on_conflict_def)

lemma row_stays_upsert:
  "list_ex (key_matches t u) rows \<Longrightarrow> list_ex (key_matches t u) (toggle_upsert rows t' u' v)"
  by (simp add: toggle_upsert_def row_kept_on_conflict)

lemma row_made_upsert: "list_ex (key_matches t u) (toggle_upsert rows t u v)"
proof (cases "list_ex (key_matches t u) rows")
  case True
  then show ?thesis
    by (simp add: toggle_upsert_def row_kept_on_conflict)
next
  case False
  then show ?thesis
    by (simp add: toggle_upsert_def key_matches_def)
qed

lemma row_stays_run:
  "list_ex (key_matches t u) (likes_of d k) \<Longrightarrow>
   list_ex (key_matches t u) (likes_of (run_toggles d ops) k)"
proof (induction ops arbitrary: d)
  case Nil
  then show ?case by simp
next
  case (Cons x ops)
  obtain k' t' u' v where x: "x = (k', t', u', v)" by (cases x) auto
  from Cons.prems have "list_ex (key_matches t u) (likes_of (toggle d x) k)"
    unfolding x by (simp add: likes_of_toggle row_stays_upsert)
  then show ?case
    by (simp add: Cons.IH)
qed

lemma row_made_run:
  "list_ex (\<lambda>(k', t', u', v). k' = k \<and> t' = t \<and> u' = u) ops \<Longrightarrow>
   list_ex (key_matches t u) (likes_of (run_toggles d ops) k)"
proof (induction ops arbitrary: d)
  case Nil
  then show ?case by simp
next
  case (Cons x ops)
  obtain k' t' u' v where x: "x = (k', t', u', v)" by (cases x) auto
  show ?case
  proof (cases "k' = k \<and> t' = t \<and> u' = u")
    case True
    then have "list_ex (key_matches t u) (likes_of (toggle d x) k)"
      unfolding x by (simp add: likes_of_toggle row_made_upsert)
    then show ?thesis
      by (simp add: row_stays_run)
  next
    case False
    with Cons.prems have "list_ex (\<lambda>(k', t', u', v). k' = k \<and> t' = t \<and> u' = u) ops"
      unfolding x by auto
    then show ?thesis
      by (simp add: Cons.IH)
  qed
qed

lemma three_valued_upsert:
  "three_valued rows \<Longrightarrow> v = 1 \<or> v = - 1 \<Longrightarrow> three_valued (toggle_upsert rows t u v)"
  by (auto simp: three_valued_def toggle_upsert_def list_all_iff on_conflict_def)

lemma three_valued_run:
  "three_valued (likes_of d k) \<Longrightarrow> list_all (\<lambda>(k, t, u, v). v = 1 \<or> v = - 1) ops \<Longrightarrow>
   three_valued (likes_of (run_toggles d ops) k)"
proof (induction ops arbitrary: d)
  case Nil
  then show ?case by simp
next
  case (Cons x ops)
  obtain k' t' u' v where x: "x = (k', t', u', v)" by (cases x) auto
  from Cons.prems have "three_valued (likes_of (toggle d x) k)"
    unfolding x by (simp add: likes_of_toggle three_valued_upsert)
  with Cons.prems show ?case
    by (simp add: Cons.IH)
qed

lemma stored_value_none_iff:
  "stored_value rows t u = None \<longleftrightarrow> \<not> list_ex (key_matches t u) rows"
  by (simp add: stored_value_def find_none_iff_not_ex)

lemma stored_value_in_rows:
  "stored_value rows t u = Some w \<Longrightarrow> \<exists>r\<in>set rows. l_value r = w"
  by (auto simp: stored_value_def find_Some_iff)

text \<open>
  C9, as the claim has it, fails: like twice on post 7 by user 3, from empty tables, leaves
  the pair neutral and leaves its row in \<^verbatim>\<open>post_likes\<close>, with the value 0.
\<close>

theorem neutral_row_remains:
  "stance_of (post_likes (run_toggles empty_db [(Post, 7, 3, 1), (Post, 7, 3, 1)])) 7 3 = Neutral
   \<and> post_likes (run_toggles empty_db [(Post, 7, 3, 1), (Post, 7, 3, 1)])
       = [\<lparr>l_target_id = 7, l_user_id = 3, l_value = 0\<rparr>]"
  by (simp add: stance_of_def stored_value_def empty_db_def TogglePostLike_def toggle_upsert_def
      key_matches_def on_conflict_def)

text \<open>
  C9, amended. Start with empty tables and run toggles whose values are 1 or -1, the values
  \<^verbatim>\<open>handlePostLike\<close> lets through. Then every stored row carries 1 (like), -1 (dislike) or
  0; a pair that has been toggled at least once has a row from then on; and a pair is
  neutral exactly when it has no row or its row carries 0.
\<close>

theorem neutral_is_no_row_or_zero:
  assumes "list_all (\<lambda>(k, t, u, v). v = 1 \<or> v = - 1) ops"
  shows "list_all (\<lambda>r. l_value r = 1 \<or> l_value r = - 1 \<or> l_value r = 0)
           (likes_of (run_toggles empty_db ops) k)
         \<and> (list_ex (\<lambda>(k', t', u', v). k' = k \<and> t' = t \<and> u' = u) ops \<longrightarrow>
              list_ex (key_matches t u) (likes_of (run_toggles empty_db ops) k))
         \<and> (stance_of (likes_of (run_toggles empty_db ops) k) t u = Neutral \<longleftrightarrow>
              \<not> list_ex (key_matches t u) (likes_of (run_toggles empty_db ops) k)
              \<or> stored_value (likes_of (run_toggles empty_db ops) k) t u = Some 0)"
proof -
  let ?rows = "likes_of (run_toggles empty_db ops) k"
  have "three_valued (likes_of empty_db k)"
    by (cases k) (simp_all add: three_valued_def likes_of_def empty_db_def)
  then have tv: "three_valued ?rows"
    using assms by (rule three_valued_run)
  have n: "stance_of ?rows t u = Neutral \<longleftrightarrow>
             \<not> list_ex (key_matches t u) ?rows \<or> stored_value ?rows t u = Some 0"
  proof (cases "stored_value ?rows t u")
    case None
    then show ?thesis
      by (simp add: stance_of_def stored_value_none_iff [symmetric])
  next
    case (Some w)
    then have "w = 1 \<or> w = - 1 \<or> w = 0"
      using tv stored_value_in_rows [OF Some] by (auto simp: three_valued_def list_all_iff)
    moreover from Some have "list_ex (key_matches t u) ?rows"
      using stored_value_none_iff [of ?rows t u] by simp
    ultimately show ?thesis
      using Some by (auto simp: stance_of_def)
  qed
  show ?thesis
    using tv n row_made_run [of k t u ops empty_db] by (simp add: three_valued_def)
qed

theorem neutral_is_no_row_or_zero_witness:
  "list_all (\<lambda>(k, t, u, v). v = 1 \<or> v = - 1) [(Post, 7, 3, 1), (Post, 7, 3, 1)]
   \<and> list_ex (\<lambda>(k', t', u', v). k' = Post \<and> t' = 7 \<and> u' = 3) [(Post, 7, 3, 1), (Post, 7, 3, 1)]
   \<and> list_ex (key_matches 7 3) (likes_of (run_toggles empty_db [(Post, 7, 3, 1), (Post, 7, 3, 1)]) Post)
   \<and> stance_of (likes_of (run_toggles empty_db [(Post, 7, 3, 1), (Post, 7, 3, 1)]) Post) 7 3 = Neutral"
proof -
  have a: "list_all (\<lambda>(k, t, u, v). v = 1 \<or> v = - 1) [(Post, 7, 3, 1), (Post, 7, 3, (1::int))]"
    by simp
  have b: "list_ex (\<lambda>(k', t', u', v). k' = Post \<and> t' = 7 \<and> u' = 3)
             [(Post, 7::int, 3::int, 1::int), (Post, 7, 3, 1)]"
    by simp
  have c: "stored_value (likes_of (run_toggles empty_db [(Post, 7, 3, 1), (Post, 7, 3, 1)]) Post) 7 3
             = Some 0"
    by (simp add: stored_value_def likes_of_def empty_db_def TogglePostLike_def toggle_upsert_def
        key_matches_def on_conflict_def)
  show ?thesis
    using a b c neutral_is_no_row_or_zero [OF a, of Post 7 3] by simp
qed

section \<open>The delete-then-insert toggle forgets the prior state\<close>

lemma ToggleLike_success:
  assumes "ToggleLike adm rows u p like = (None, rows')"
  shows "rows' = filter (\<lambda>r. \<not> same_pair u p r) rows @ [new_interaction u p like]"
    and "adm (new_interaction u p like) (filter (\<lambda>r. \<not> same_pair u p r) rows) = None"
  using assms
  by (auto simp: ToggleLike_def Let_def new_interaction_def split: option.splits if_splits)

lemma ToggleLike_accepts:
  assumes "adm (new_interaction u p like) (filter (\<lambda>r. \<not> same_pair u p r) rows) = None"
  shows "ToggleLike adm rows u p like
           = (None, filter (\<lambda>r. \<not> same_pair u p r) rows @ [new_interaction u p like])"
proof -
  have "new_interaction u p like
          = \<lparr>i_user_uuid = u, i_post_id = p, i_liked = (if like then True else False),
             i_disliked = (if like then False else True)\<rparr>"
    by (simp add: new_interaction_def)
  with assms show ?thesis
    by (simp add: ToggleLike_def Let_def)
qed

lemma pair_rows_after:
  "pair_rows (filter (\<lambda>r. \<not> same_pair u p r) rows @ [new_interaction u p like]) u' p'
     = (if (u', p') = (u, p) then [new_interaction u p like] else pair_rows rows u' p')"
proof -
  have same: "filter (same_pair u p) (filter (\<lambda>r. \<not> same_pair u p r) rows) = []"
    by (induction rows) simp_all
  have other: "(u', p') \<noteq> (u, p) \<Longrightarrow>
      filter (same_pair u' p') (filter (\<lambda>r. \<not> same_pair u p r) rows) = filter (same_pair u' p') rows"
    by (induction rows) (auto simp: same_pair_def)
  show ?thesis
    using same other by (auto simp: pair_rows_def same_pair_def new_interaction_def)
qed

lemma stance_set_kept:
  assumes "stance_set rows u p" and "ToggleLike adm rows u' p' like = (None, rows')"
  shows "stance_set rows' u p"
proof -
  have rows': "rows' = filter (\<lambda>r. \<not> same_pair u' p' r) rows @ [new_interaction u' p' like]"
    using assms(2) by (rule ToggleLike_success)
  have pr: "pair_rows rows' u p
      = (if (u, p) = (u', p') then [new_interaction u' p' like] else pair_rows rows u p)"
    unfolding rows' by (rule pair_rows_after)
  show ?thesis
    using assms(1)
    by (cases like)
      (auto simp: stance_set_def holds_liked_def holds_disliked_def pr new_interaction_def)
qed

lemma stance_set_all:
  "stance_set rows u p \<Longrightarrow> ToggleLike_all adm rows calls = Inr rows' \<Longrightarrow> stance_set rows' u p"
proof (induction calls arbitrary: rows)
  case Nil
  then show ?case by simp
next
  case (Cons c calls)
  obtain u' p' like where c: "c = (u', p', like)" by (cases c) auto
  from Cons.prems(2) obtain rows1 where
    step: "ToggleLike adm rows u' p' like = (None, rows1)" and
    rest: "ToggleLike_all adm rows1 calls = Inr rows'"
    unfolding c by (auto split: prod.splits option.splits)
  from Cons.prems(1) step have "stance_set rows1 u p"
    by (rule stance_set_kept)
  then show ?case
    using rest by (rule Cons.IH)
qed

text \<open>
  C10. Whatever rows the table held, a call of \<^verbatim>\<open>ToggleLike\<close> that returns no error leaves
  exactly one row for the pair, with \<open>liked = like\<close> and \<open>disliked = \<not> like\<close>. The same call
  again returns no error and leaves the table as it is. And after any further calls that
  all return no error, on this pair or others, the pair still holds a like or a dislike:
  it is never neutral again.
\<close>

theorem ToggleLike_overwrites:
  assumes "ToggleLike adm rows u p like = (None, rows')"
  shows "pair_rows rows' u p
           = [\<lparr>i_user_uuid = u, i_post_id = p, i_liked = like, i_disliked = \<not> like\<rparr>]
         \<and> holds_liked rows' u p = like
         \<and> holds_disliked rows' u p = (\<not> like)
         \<and> ToggleLike adm rows' u p like = (None, rows')
         \<and> (ToggleLike_all adm rows' calls = Inr rows'' \<longrightarrow>
              holds_liked rows'' u p \<or> holds_disliked rows'' u p)"
proof -
  let ?rows1 = "filter (\<lambda>r. \<not> same_pair u p r) rows"
  have rows': "rows' = ?rows1 @ [new_interaction u p like]"
    and ok: "adm (new_interaction u p like) ?rows1 = None"
    using assms by (rule ToggleLike_success)+
  have pr: "pair_rows rows' u p = [new_interaction u p like]"
    unfolding rows' by (simp add: pair_rows_after)
  have again: "filter (\<lambda>r. \<not> same_pair u p r) rows' = ?rows1"
    unfolding rows' by (simp add: same_pair_def new_interaction_def)
  have twice: "ToggleLike adm rows' u p like = (None, rows')"
    using ToggleLike_accepts [of adm u p like rows'] ok unfolding again by (simp add: rows')
  have set: "stance_set rows' u p"
    by (cases like) (simp_all add: stance_set_def holds_liked_def holds_disliked_def pr new_interaction_def)
  have later: "ToggleLike_all adm rows' calls = Inr rows'' \<Longrightarrow>
      holds_liked rows'' u p \<or> holds_disliked rows'' u p"
    using stance_set_all [OF set] by (simp add: stance_set_def)
  show ?thesis
    using pr twice later
    by (simp add: holds_liked_def holds_disliked_def new_interaction_def)
qed

theorem ToggleLike_overwrites_witness:
  "ToggleLike (\<lambda>r rs. None) [\<lparr>i_user_uuid = ''a'', i_post_id = 7, i_liked = False, i_disliked = True\<rparr>]
       ''a'' 7 True
     = (None, [\<lparr>i_user_uuid = ''a'', i_post_id = 7, i_liked = True, i_disliked = False\<rparr>])
   \<and> ToggleLike_all (\<lambda>r rs. None)
        [\<lparr>i_user_uuid = ''a'', i_post_id = 7, i_liked = True, i_disliked = False\<rparr>]
        [(''a'', 7, True), (''b'', 7, False)]
     = Inr [\<lparr>i_user_uuid = ''a'', i_post_id = 7, i_liked = True, i_disliked = False\<rparr>,
            \<lparr>i_user_uuid = ''b'', i_post_id = 7, i_liked = False, i_disliked = True\<rparr>]
   \<and> holds_liked [\<lparr>i_user_uuid = ''a'', i_post_id = 7, i_liked = True, i_disliked = False\<rparr>,
            \<lparr>i_user_uuid = ''b'', i_post_id = 7, i_liked = False, i_disliked = True\<rparr>] ''a'' 7"
proof -
  let ?r0 = "\<lparr>i_user_uuid = ''a'', i_post_id = 7, i_liked = False, i_disliked = True\<rparr>"
  let ?r1 = "\<lparr>i_user_uuid = ''a'', i_post_id = 7, i_liked = True, i_disliked = False\<rparr>"
  let ?r2 = "\<lparr>i_user_uuid = ''b'', i_post_id = 7, i_liked = False, i_disliked = True\<rparr>"
  have a: "ToggleLike (\<lambda>r rs. None) [?r0] ''a'' 7 True = (None, [?r1])"
    by (simp add: ToggleLike_def same_pair_def)
  have b: "ToggleLike_all (\<lambda>r rs. None) [?r1] [(''a'', 7, True), (''b'', 7, False)] = Inr [?r1, ?r2]"
    by (simp add: ToggleLike_def same_pair_def)
  have c: "\<not> holds_disliked [?r1, ?r2] ''a'' 7"
    by (simp add: holds_disliked_def pair_rows_def same_pair_def)
  show ?thesis
    using a b c
      ToggleLike_overwrites [OF a, of "[(''a'', 7, True), (''b'', 7, False)]" "[?r1, ?r2]"]
    by simp
qed

section \<open>Duplicate registrations\<close>

lemma email_message_recognised:
  "msg_users_email \<noteq> [] \<and> strings_Contains msg_users_email ''UNIQUE constraint failed: users.email''"
  by (simp add: msg_users_email_def)

lemma username_message_recognised:
  "msg_users_username \<noteq> []
   \<and> \<not> strings_Contains msg_users_username ''UNIQUE constraint failed: users.email''
   \<and> strings_Contains msg_users_username ''UNIQUE constraint failed: users.username''"
  by (simp add: msg_users_username_def)

lemma CreateUser_email_refused:
  "insert_user ef d now email username h = (Some msg_users_email, d') \<Longrightarrow>
   CreateUser ef d now email username h = (Some ErrDuplicateEmail, d')"
  using email_message_recognised by (simp add: CreateUser_def)

lemma CreateUser_username_refused:
  "insert_user ef d now email username h = (Some msg_users_username, d') \<Longrightarrow>
   CreateUser ef d now email username h = (Some ErrDuplicateUsername, d')"
  using username_message_recognised by (simp add: CreateUser_def)

lemma CreateUser_email_taken:
  assumes "list_ex (\<lambda>r. u_email r = email) (users d)"
    and "\<not> list_ex (\<lambda>r. u_username r = username) (users d)"
  shows "CreateUser ef d now email username h = (Some ErrDuplicateEmail, d)"
  using assms by (intro CreateUser_email_refused) (simp add: insert_user_def)

lemma CreateUser_username_taken:
  assumes "list_ex (\<lambda>r. u_username r = username) (users d)"
    and "\<not> list_ex (\<lambda>r. u_email r = email) (users d)"
  shows "CreateUser ef d now email username h = (Some ErrDuplicateUsername, d)"
  using assms by (intro CreateUser_username_refused) (simp add: insert_user_def)

lemma CreateUser_both_taken:
  assumes "list_ex (\<lambda>r. u_email r = email) (users d)"
    and "list_ex (\<lambda>r. u_username r = username) (users d)"
  shows "CreateUser ef d now email username h
           = (Some (if ef then ErrDuplicateEmail else ErrDuplicateUsername), d)"
proof (cases ef)
  case True
  with assms show ?thesis
    by (simp add: CreateUser_email_refused insert_user_def)
next
  case False
  with assms show ?thesis
    by (simp add: CreateUser_username_refused insert_user_def)
qed

lemma CreateUser_first:
  "CreateUser ef empty_db now email username h
     = (None, empty_db\<lparr>users := [\<lparr>u_id = 1, u_email = email, u_username = username,
                                   u_password_hash = h, u_created_at = now\<rparr>]\<rparr>)"
  by (simp add: CreateUser_def insert_user_def empty_db_def next_id_def)

text \<open>
  C7. \<^verbatim>\<open>CreateUser\<close> returns \<^verbatim>\<open>ErrDuplicateEmail\<close> when the email is taken and the username
  is not, \<^verbatim>\<open>ErrDuplicateUsername\<close> when the username is taken and the email is not, and
  one of the two when both are; the store is left as it was. On empty tables, registering
  (a@x.com, bob) succeeds; then (a@x.com, carol) fails with the email error and
  (c@x.com, bob) with the username error. This holds whichever index the engine checks
  first.
\<close>

theorem CreateUser_duplicate_detection:
  "(list_ex (\<lambda>r. u_email r = email) (users d) \<and> \<not> list_ex (\<lambda>r. u_username r = username) (users d)
      \<longrightarrow> CreateUser ef d now email username h = (Some ErrDuplicateEmail, d))
   \<and> (list_ex (\<lambda>r. u_username r = username) (users d) \<and> \<not> list_ex (\<lambda>r. u_email r = email) (users d)
      \<longrightarrow> CreateUser ef d now email username h = (Some ErrDuplicateUsername, d))
   \<and> (list_ex (\<lambda>r. u_email r = email) (users d) \<and> list_ex (\<lambda>r. u_username r = username) (users d)
      \<longrightarrow> CreateUser ef d now email username h
            = (Some (if ef then ErrDuplicateEmail else ErrDuplicateUsername), d))
   \<and> fst (CreateUser ef empty_db t1 ''a@x.com'' ''bob'' h1) = None
   \<and> CreateUser ef (snd (CreateUser ef empty_db t1 ''a@x.com'' ''bob'' h1)) t2 ''a@x.com'' ''carol'' h2
       = (Some ErrDuplicateEmail, snd (CreateUser ef empty_db t1 ''a@x.com'' ''bob'' h1))
   \<and> CreateUser ef (snd (CreateUser ef empty_db t1 ''a@x.com'' ''bob'' h1)) t3 ''c@x.com'' ''bob'' h3
       = (Some ErrDuplicateUsername, snd (CreateUser ef empty_db t1 ''a@x.com'' ''bob'' h1))"
proof -
  let ?d1 = "snd (CreateUser ef empty_db t1 ''a@x.com'' ''bob'' h1)"
  have u1: "users ?d1 = [\<lparr>u_id = 1, u_email = ''a@x.com'', u_username = ''bob'',
                          u_password_hash = h1, u_created_at = t1\<rparr>]"
    by (simp add: CreateUser_first)
  have first: "fst (CreateUser ef empty_db t1 ''a@x.com'' ''bob'' h1) = None"
    by (simp add: CreateUser_first)
  have second: "CreateUser ef ?d1 t2 ''a@x.com'' ''carol'' h2 = (Some ErrDuplicateEmail, ?d1)"
    by (rule CreateUser_email_taken) (simp_all add: u1)
  have third: "CreateUser ef ?d1 t3 ''c@x.com'' ''bob'' h3 = (Some ErrDuplicateUsername, ?d1)"
    by (rule CreateUser_username_taken) (simp_all add: u1)
  show ?thesis
    using first second third CreateUser_email_taken [of email d username ef now h]
      CreateUser_username_taken [of username d email ef now h]
      CreateUser_both_taken [of email d username ef now h]
    by blast
qed

theorem CreateUser_duplicate_detection_witness:
  "list_ex (\<lambda>r. u_email r = ''a@x.com'') (users (snd (CreateUser True empty_db 0 ''a@x.com'' ''bob'' ''h'')))
   \<and> \<not> list_ex (\<lambda>r. u_username r = ''carol'')
          (users (snd (CreateUser True empty_db 0 ''a@x.com'' ''bob'' ''h'')))
   \<and> CreateUser True (snd (CreateUser True empty_db 0 ''a@x.com'' ''bob'' ''h'')) 5 ''a@x.com'' ''carol'' ''k''
       = (Some ErrDuplicateEmail, snd (CreateUser True empty_db 0 ''a@x.com'' ''bob'' ''h''))"
proof -
  have a: "list_ex (\<lambda>r. u_email r = ''a@x.com'')
             (users (snd (CreateUser True empty_db 0 ''a@x.com'' ''bob'' ''h'')))"
    by (simp add: CreateUser_first)
  have b: "\<not> list_ex (\<lambda>r. u_username r = ''carol'')
             (users (snd (CreateUser True empty_db 0 ''a@x.com'' ''bob'' ''h'')))"
    by (simp add: CreateUser_first)
  show ?thesis
    using a b
      CreateUser_duplicate_detection [of "''a@x.com''"
        "snd (CreateUser True empty_db 0 ''a@x.com'' ''bob'' ''h'')" "''carol''" True 5 "''k''"]
    by blast
qed

section \<open>One active session for each user\<close>

lemma revoke_keeps_ids: "map s_id (revoke_user_sessions rows now userID) = map s_id rows"
  by (induction rows) (simp_all add: revoke_user_sessions_def)

lemma revoke_leaves_none_active:
  "filter (\<lambda>s. s_user_id s = userID \<and> s_revoked_at s = None)
     (revoke_user_sessions rows now userID) = []"
  by (induction rows) (simp_all add: revoke_user_sessions_def)

lemma id_taken_iff: "list_ex (\<lambda>s. s_id s = sid) rows \<longleftrightarrow> sid \<in> set (map s_id rows)"
  by (auto simp: list_ex_iff)

lemma CreateSession_fresh:
  assumes "sid \<notin> set (map s_id (sessions d))"
  shows "CreateSession d now userID sid expires
           = (None, d\<lparr>sessions := revoke_user_sessions (sessions d) now userID
                                     @ [issued userID (now, sid, expires)]\<rparr>)"
proof -
  have "\<not> list_ex (\<lambda>s. s_id s = sid) (revoke_user_sessions (sessions d) now userID)"
    using assms unfolding id_taken_iff revoke_keeps_ids .
  then show ?thesis
    by (simp add: CreateSession_def insert_session_def issued_def)
qed

lemma issue_all_fresh:
  assumes "distinct (map (\<lambda>c. fst (snd c)) calls)"
    and "\<forall>c\<in>set calls. fst (snd c) \<notin> set (map s_id (sessions d))"
  shows "\<exists>d'. issue_all d userID calls = Inr d'
           \<and> (calls \<noteq> [] \<longrightarrow> active_sessions d' userID = [issued userID (last calls)])"
  using assms
proof (induction calls arbitrary: d)
  case Nil
  then show ?case by simp
next
  case (Cons c calls)
  obtain now sid expires where c: "c = (now, sid, expires)" by (cases c) auto
  let ?d1 = "d\<lparr>sessions := revoke_user_sessions (sessions d) now userID
                               @ [issued userID (now, sid, expires)]\<rparr>"
  have fresh: "sid \<notin> set (map s_id (sessions d))"
    using Cons.prems(2) by (simp add: c)
  have step: "CreateSession d now userID sid expires = (None, ?d1)"
    using fresh by (rule CreateSession_fresh)
  have ids: "set (map s_id (sessions ?d1)) = insert sid (set (map s_id (sessions d)))"
    using revoke_keeps_ids [of "sessions d" now userID] by (simp add: issued_def)
  have d: "distinct (map (\<lambda>c. fst (snd c)) calls)"
    using Cons.prems(1) by simp
  have f: "\<forall>c\<in>set calls. fst (snd c) \<notin> set (map s_id (sessions ?d1))"
    using Cons.prems unfolding ids by (auto simp: c)
  from Cons.IH [OF d f] obtain d' where
    rest: "issue_all ?d1 userID calls = Inr d'" and
    act: "calls \<noteq> [] \<longrightarrow> active_sessions d' userID = [issued userID (last calls)]"
    by blast
  have one: "active_sessions ?d1 userID = [issued userID (now, sid, expires)]"
    by (simp add: active_sessions_def revoke_leaves_none_active issued_def)
  show ?case
  proof (cases "calls = []")
    case True
    then show ?thesis
      using step one by (simp add: c)
  next
    case False
    then show ?thesis
      using step rest act by (simp add: c)
  qed
qed

text \<open>
  C2. Log one user in any number of times, at least once, each time with a session id that
  is new to the table (\<^verbatim>\<open>handleLogin\<close> draws a fresh UUID), from any store. Every call of
  \<^verbatim>\<open>CreateSession\<close> returns no error, and afterwards exactly one session of the user has
  no \<open>revoked_at\<close>: the row the last call inserted.
\<close>

theorem single_active_session:
  assumes "calls \<noteq> []"
    and "distinct (map (\<lambda>c. fst (snd c)) calls)"
    and "\<forall>c\<in>set calls. fst (snd c) \<notin> set (map s_id (sessions d))"
  shows "\<exists>d'. issue_all d userID calls = Inr d'
           \<and> active_sessions d' userID = [issued userID (last calls)]"
  using issue_all_fresh [OF assms(2,3), of userID] assms(1) by blast

theorem single_active_session_witness:
  "\<exists>d'. issue_all
           (empty_db\<lparr>sessions := [\<lparr>s_id = ''s0'', s_user_id = 1, s_created_at = 0,
                                   s_expires_at = 50, s_revoked_at = None\<rparr>]\<rparr>)
           1 [(10, ''s1'', 60), (20, ''s2'', 70)] = Inr d'
         \<and> active_sessions d' 1
             = [\<lparr>s_id = ''s2'', s_user_id = 1, s_created_at = 20, s_expires_at = 70,
                 s_revoked_at = None\<rparr>]"
proof -
  let ?d = "empty_db\<lparr>sessions := [\<lparr>s_id = ''s0'', s_user_id = 1, s_created_at = 0,
                                   s_expires_at = 50, s_revoked_at = None\<rparr>]\<rparr>"
  let ?calls = "[(10, ''s1'', 60), (20, ''s2'', 70)] :: (time \<times> string \<times> time) list"
  have a: "?calls \<noteq> []" by simp
  have b: "distinct (map (\<lambda>c. fst (snd c)) ?calls)" by simp
  have c: "\<forall>c\<in>set ?calls. fst (snd c) \<notin> set (map s_id (sessions ?d))" by simp
  show ?thesis
    using single_active_session [OF a b c, of 1] by (simp add: issued_def)
qed

section \<open>Validating a session\<close>

lemma find_by_key:
  "distinct (map f xs) \<Longrightarrow> x \<in> set xs \<Longrightarrow> f x = k \<Longrightarrow> find (\<lambda>y. f y = k) xs = Some x"
proof (induction xs)
  case Nil
  then show ?case by simp
next
  case (Cons a xs)
  show ?case
  proof (cases "f a = k")
    case True
    with Cons.prems have "x = a"
      by (cases "x = a") (auto simp: image_iff)
    with True show ?thesis by simp
  next
    case False
    with Cons.prems have "x \<in> set xs" by auto
    with Cons False show ?thesis by simp
  qed
qed

lemma find_no_key: "find (\<lambda>y. f y = k) xs = None \<longleftrightarrow> k \<notin> set (map f xs)"
  by (induction xs) auto

lemma find_key_cases:
  assumes "distinct (map f xs)"
  obtains "k \<notin> set (map f xs)" "find (\<lambda>y. f y = k) xs = None"
  | x where "x \<in> set xs" "f x = k" "find (\<lambda>y. f y = k) xs = Some x"
proof (cases "find (\<lambda>y. f y = k) xs")
  case None
  then have "k \<notin> set (map f xs)"
    by (rule iffD1 [OF find_no_key])
  then show ?thesis
    using None by (rule that(1))
next
  case (Some x)
  then have "x \<in> set xs" "f x = k"
    by (auto simp: find_Some_iff)
  then show ?thesis
    using Some by (rule that(2))
qed

lemma GetSession_found:
  "find (\<lambda>y. s_id y = tok) (sessions d) = Some s \<Longrightarrow>
   currentUser d now (Some tok)
     = (if s_revoked_at s \<noteq> None \<or> s_expires_at s < now then None
        else find (\<lambda>y. u_id y = s_user_id s) (users d))"
  by (simp add: currentUser_def GetSession_def)

lemma GetSession_unknown:
  "find (\<lambda>y. s_id y = tok) (sessions d) = None \<Longrightarrow> currentUser d now (Some tok) = None"
  by (simp add: currentUser_def GetSession_def)

lemma currentUser_valid:
  assumes "distinct (map s_id (sessions d))" and "distinct (map u_id (users d))"
    and "s \<in> set (sessions d)" and "s_id s = tok"
    and "s_revoked_at s = None" and "now \<le> s_expires_at s"
    and "usr \<in> set (users d)" and "u_id usr = s_user_id s"
  shows "currentUser d now (Some tok) = Some usr"
proof -
  have "find (\<lambda>y. s_id y = tok) (sessions d) = Some s"
    using assms(1,3,4) by (rule find_by_key)
  moreover have "find (\<lambda>y. u_id y = s_user_id s) (users d) = Some usr"
    using assms(2,7,8) by (rule find_by_key)
  ultimately show ?thesis
    using assms(5,6) by (simp add: GetSession_found)
qed

lemma currentUser_invalid_iff:
  assumes "distinct (map s_id (sessions d))"
  shows "currentUser d now (Some tok) = None \<longleftrightarrow>
           tok \<notin> set (map s_id (sessions d))
           \<or> (\<exists>s\<in>set (sessions d). s_id s = tok
                \<and> (s_revoked_at s \<noteq> None \<or> s_expires_at s < now
                    \<or> s_user_id s \<notin> set (map u_id (users d))))"
  using assms
proof (cases rule: find_key_cases [where k = tok])
  case 1
  then show ?thesis
    by (simp add: GetSession_unknown)
next
  case (2 s)
  let ?bad = "\<lambda>s. s_revoked_at s \<noteq> None \<or> s_expires_at s < now
                 \<or> s_user_id s \<notin> set (map u_id (users d))"
  have only: "s' = s" if "s' \<in> set (sessions d)" "s_id s' = tok" for s'
    using find_by_key [OF assms that] 2(3) by simp
  have cur: "currentUser d now (Some tok) = None \<longleftrightarrow> ?bad s"
    using find_no_key [of u_id "s_user_id s" "users d"]
    by (simp add: GetSession_found [OF 2(3)])
  have known: "tok \<in> set (map s_id (sessions d))"
    using 2(1,2) by (simp add: image_iff) blast
  have "(\<exists>s'\<in>set (sessions d). s_id s' = tok \<and> ?bad s') \<longleftrightarrow> ?bad s"
  proof
    assume "\<exists>s'\<in>set (sessions d). s_id s' = tok \<and> ?bad s'"
    then obtain s' where "s' \<in> set (sessions d)" "s_id s' = tok" "?bad s'"
      by blast
    then show "?bad s"
      using only [of s'] by simp
  next
    assume "?bad s"
    with 2(1,2) show "\<exists>s'\<in>set (sessions d). s_id s' = tok \<and> ?bad s'"
      by (intro bexI [of _ s]) simp_all
  qed
  with cur known show ?thesis
    by simp
qed

text \<open>
  C3, as the claim has it, fails at the instant of expiry: a session that expires at 100, not
  revoked, still resolves to its user when the clock reads 100, because the test is
  \<^verbatim>\<open>sess.ExpiresAt.Before(time.Now())\<close>.
\<close>

theorem valid_at_expiry_instant:
  "currentUser
     (empty_db\<lparr>users := [\<lparr>u_id = 1, u_email = ''a@b.com'', u_username = ''alice'',
                          u_password_hash = ''h'', u_created_at = 0\<rparr>],
               sessions := [\<lparr>s_id = ''t'', s_user_id = 1, s_created_at = 0,
                             s_expires_at = 100, s_revoked_at = None\<rparr>]\<rparr>)
     100 (Some ''t'')
   = Some \<lparr>u_id = 1, u_email = ''a@b.com'', u_username = ''alice'',
           u_password_hash = ''h'', u_created_at = 0\<rparr>"
  by (simp add: currentUser_def GetSession_def empty_db_def)

text \<open>
  C3, amended. With session ids and user ids unique, as their primary keys make them,
  \<^verbatim>\<open>currentUser\<close> gives no identity exactly when there is no cookie, or the token is not a
  session id, or the session is revoked, or its expiry is strictly before the current
  time, or its user row is missing. A session that is not revoked, whose expiry is now or
  later and whose user exists resolves to that user. A session whose expiry is strictly
  in the past gives no identity, whatever its \<open>revoked_at\<close>.
\<close>

theorem currentUser_characterised:
  assumes "distinct (map s_id (sessions d))" and "distinct (map u_id (users d))"
  shows "currentUser d now None = None
         \<and> (currentUser d now (Some tok) = None \<longleftrightarrow>
              tok \<notin> set (map s_id (sessions d))
              \<or> (\<exists>s\<in>set (sessions d). s_id s = tok
                   \<and> (s_revoked_at s \<noteq> None \<or> s_expires_at s < now
                       \<or> s_user_id s \<notin> set (map u_id (users d)))))
         \<and> (\<forall>s\<in>set (sessions d). \<forall>usr\<in>set (users d).
              s_id s = tok \<and> s_revoked_at s = None \<and> now \<le> s_expires_at s
              \<and> u_id usr = s_user_id s \<longrightarrow> currentUser d now (Some tok) = Some usr)
         \<and> (\<forall>s\<in>set (sessions d).
              s_id s = tok \<and> s_expires_at s < now \<longrightarrow> currentUser d now (Some tok) = None)"
proof -
  have none: "currentUser d now None = None"
    by (simp add: currentUser_def)
  have invalid: "currentUser d now (Some tok) = None \<longleftrightarrow>
      tok \<notin> set (map s_id (sessions d))
      \<or> (\<exists>s\<in>set (sessions d). s_id s = tok
           \<and> (s_revoked_at s \<noteq> None \<or> s_expires_at s < now
               \<or> s_user_id s \<notin> set (map u_id (users d))))"
    using assms(1) by (rule currentUser_invalid_iff)
  have valid: "\<forall>s\<in>set (sessions d). \<forall>usr\<in>set (users d).
      s_id s = tok \<and> s_revoked_at s = None \<and> now \<le> s_expires_at s
      \<and> u_id usr = s_user_id s \<longrightarrow> currentUser d now (Some tok) = Some usr"
  proof (intro ballI impI)
    fix s usr
    assume "s \<in> set (sessions d)" "usr \<in> set (users d)"
      and "s_id s = tok \<and> s_revoked_at s = None \<and> now \<le> s_expires_at s \<and> u_id usr = s_user_id s"
    then show "currentUser d now (Some tok) = Some usr"
      using currentUser_valid [OF assms, of s tok now usr] by simp
  qed
  have past: "\<forall>s\<in>set (sessions d).
      s_id s = tok \<and> s_expires_at s < now \<longrightarrow> currentUser d now (Some tok) = None"
  proof (intro ballI impI)
    fix s
    assume s: "s \<in> set (sessions d)" and "s_id s = tok \<and> s_expires_at s < now"
    then have "\<exists>s\<in>set (sessions d). s_id s = tok
           \<and> (s_revoked_at s \<noteq> None \<or> s_expires_at s < now
               \<or> s_user_id s \<notin> set (map u_id (users d)))"
      by (intro bexI [of _ s]) simp_all
    then show "currentUser d now (Some tok) = None"
      unfolding invalid by (rule disjI2)
  qed
  from none invalid valid past show ?thesis
    by (intro conjI)
qed

theorem currentUser_characterised_witness:
  "currentUser
     (empty_db\<lparr>users := [\<lparr>u_id = 1, u_email = ''a@b.com'', u_username = ''alice'',
                          u_password_hash = ''h'', u_created_at = 0\<rparr>],
               sessions := [\<lparr>s_id = ''t'', s_user_id = 1, s_created_at = 0,
                             s_expires_at = 100, s_revoked_at = Some 50\<rparr>]\<rparr>)
     101 (Some ''t'') = None
   \<and> currentUser
     (empty_db\<lparr>users := [\<lparr>u_id = 1, u_email = ''a@b.com'', u_username = ''alice'',
                          u_password_hash = ''h'', u_created_at = 0\<rparr>],
               sessions := [\<lparr>s_id = ''t'', s_user_id = 1, s_created_at = 0,
                             s_expires_at = 100, s_revoked_at = Some 50\<rparr>]\<rparr>)
     101 (Some ''x'') = None"
proof -
  let ?d = "empty_db\<lparr>users := [\<lparr>u_id = 1, u_email = ''a@b.com'', u_username = ''alice'',
                          u_password_hash = ''h'', u_created_at = 0\<rparr>],
               sessions := [\<lparr>s_id = ''t'', s_user_id = 1, s_created_at = 0,
                             s_expires_at = 100, s_revoked_at = Some 50\<rparr>]\<rparr>"
  have a: "distinct (map s_id (sessions ?d))" by simp
  have b: "distinct (map u_id (users ?d))" by simp
  show ?thesis
    using currentUser_characterised [OF a b, of 101 "''t''"]
      currentUser_characterised [OF a b, of 101 "''x''"]
    by simp
qed

section \<open>The primary keys stay unique\<close>

lemma fold_max_bounds: "(a::int) \<le> fold max ids a \<and> (\<forall>x\<in>set ids. x \<le> fold max ids a)"
proof (induction ids arbitrary: a)
  case Nil
  show ?case by simp
next
  case (Cons i ids)
  from Cons.IH [of "max i a"] show ?case
    by auto
qed

lemma next_id_new: "next_id ids \<notin> set ids"
proof
  assume "next_id ids \<in> set ids"
  then have "next_id ids \<le> fold max ids (0::int)"
    using fold_max_bounds [of 0 ids] by blast
  then show False
    by (simp add: next_id_def)
qed

lemma insert_user_keeps_ids_distinct:
  assumes "distinct (map u_id (users d))"
  shows "distinct (map u_id (users (snd (insert_user ef d now email username h))))"
  using assms next_id_new [of "map u_id (users d)"]
  by (simp add: insert_user_def Let_def)

lemma CreateUser_keeps_ids_distinct:
  assumes "distinct (map u_id (users d))"
  shows "distinct (map u_id (users (snd (CreateUser ef d now email username h))))"
proof -
  have "snd (CreateUser ef d now email username h) = snd (insert_user ef d now email username h)"
    by (simp add: CreateUser_def split: prod.splits option.splits)
  then show ?thesis
    using insert_user_keeps_ids_distinct [OF assms] by simp
qed

lemma CreateSession_keeps_ids_distinct:
  assumes "distinct (map s_id (sessions d))"
  shows "distinct (map s_id (sessions (snd (CreateSession d now userID sid expires))))"
proof (cases "sid \<in> set (map s_id (sessions d))")
  case True
  then have "list_ex (\<lambda>s. s_id s = sid) (revoke_user_sessions (sessions d) now userID)"
    unfolding id_taken_iff revoke_keeps_ids .
  then show ?thesis
    using assms by (simp add: CreateSession_def insert_session_def revoke_keeps_ids)
next
  case False
  then show ?thesis
    using assms by (simp add: CreateSession_fresh revoke_keeps_ids issued_def)
qed

lemma revoke_session_keeps_ids: "map s_id (revoke_session rows now sid) = map s_id rows"
  by (induction rows) (simp_all add: revoke_session_def)

section \<open>Where the code departs from the specification\<close>

text \<open>
  C4. \<^verbatim>\<open>CreateSession\<close> has no transaction around its two statements. User 1 holds the
  active session \<open>s1\<close>; a call whose insert is refused (here: the session id is already
  the key of a row) returns the error, and \<^verbatim>\<open>handleLogin\<close> answers 500 and sets no cookie;
  but the revocation of \<open>s1\<close> has been written and stays, so the user is left with no
  active session.
\<close>

theorem failed_issue_keeps_revocation:
  "active_sessions
     (empty_db\<lparr>users := [\<lparr>u_id = 1, u_email = ''a@b.com'', u_username = ''alice'',
                          u_password_hash = ''h'', u_created_at = 0\<rparr>],
               sessions := [\<lparr>s_id = ''s1'', s_user_id = 1, s_created_at = 0,
                             s_expires_at = 100, s_revoked_at = None\<rparr>]\<rparr>) 1
     = [\<lparr>s_id = ''s1'', s_user_id = 1, s_created_at = 0, s_expires_at = 100, s_revoked_at = None\<rparr>]
   \<and> CreateSession
     (empty_db\<lparr>users := [\<lparr>u_id = 1, u_email = ''a@b.com'', u_username = ''alice'',
                          u_password_hash = ''h'', u_created_at = 0\<rparr>],
               sessions := [\<lparr>s_id = ''s1'', s_user_id = 1, s_created_at = 0,
                             s_expires_at = 100, s_revoked_at = None\<rparr>]\<rparr>)
     50 1 ''s1'' 150
     = (Some (SqliteError ''UNIQUE constraint failed: sessions.id''),
        empty_db\<lparr>users := [\<lparr>u_id = 1, u_email = ''a@b.com'', u_username = ''alice'',
                          u_password_hash = ''h'', u_created_at = 0\<rparr>],
               sessions := [\<lparr>s_id = ''s1'', s_user_id = 1, s_created_at = 0,
                             s_expires_at = 100, s_revoked_at = Some 50\<rparr>]\<rparr>)
   \<and> fst (handleLogin (\<lambda>hash password. True)
     (empty_db\<lparr>users := [\<lparr>u_id = 1, u_email = ''a@b.com'', u_username = ''alice'',
                          u_password_hash = ''h'', u_created_at = 0\<rparr>],
               sessions := [\<lparr>s_id = ''s1'', s_user_id = 1, s_created_at = 0,
                             s_expires_at = 100, s_revoked_at = None\<rparr>]\<rparr>)
     50 ''s1'' POST ''a@b.com'' ''secret'')
     = \<lparr>status = 500, redirect = None, set_cookie = None\<rparr>
   \<and> active_sessions (snd (handleLogin (\<lambda>hash password. True)
     (empty_db\<lparr>users := [\<lparr>u_id = 1, u_email = ''a@b.com'', u_username = ''alice'',
                          u_password_hash = ''h'', u_created_at = 0\<rparr>],
               sessions := [\<lparr>s_id = ''s1'', s_user_id = 1, s_created_at = 0,
                             s_expires_at = 100, s_revoked_at = None\<rparr>]\<rparr>)
     50 ''s1'' POST ''a@b.com'' ''secret'')) 1 = []"
  by (simp add: active_sessions_def CreateSession_def insert_session_def revoke_user_sessions_def
      msg_sessions_id_def handleLogin_def GetUserByEmail_def http_Error_def empty_db_def)

text \<open>
  C5. The statement of \<^verbatim>\<open>handleLogout\<close> has no \<^verbatim>\<open>revoked_at IS NULL\<close> guard (the one in
  \<^verbatim>\<open>CreateSession\<close> has it). Logging out with the cookie \<open>s1\<close> at 100 stores
  \<open>revoked_at = 100\<close>; the same request again at 200 is not a no-op: it overwrites the
  stored instant with 200. Both requests answer with the redirect, and a token that is no
  session id changes nothing.
\<close>

theorem logout_twice_rewrites_revoked_at:
  "handleLogout
     (empty_db\<lparr>sessions := [\<lparr>s_id = ''s1'', s_user_id = 1, s_created_at = 0,
                             s_expires_at = 1000, s_revoked_at = None\<rparr>]\<rparr>)
     100 POST (Some ''s1'')
     = (\<lparr>status = 303, redirect = Some ToRoot, set_cookie = Some ClearCookie\<rparr>,
        empty_db\<lparr>sessions := [\<lparr>s_id = ''s1'', s_user_id = 1, s_created_at = 0,
                                s_expires_at = 1000, s_revoked_at = Some 100\<rparr>]\<rparr>)
   \<and> handleLogout
     (empty_db\<lparr>sessions := [\<lparr>s_id = ''s1'', s_user_id = 1, s_created_at = 0,
                             s_expires_at = 1000, s_revoked_at = Some 100\<rparr>]\<rparr>)
     200 POST (Some ''s1'')
     = (\<lparr>status = 303, redirect = Some ToRoot, set_cookie = Some ClearCookie\<rparr>,
        empty_db\<lparr>sessions := [\<lparr>s_id = ''s1'', s_user_id = 1, s_created_at = 0,
                                s_expires_at = 1000, s_revoked_at = Some 200\<rparr>]\<rparr>)
   \<and> snd (handleLogout
     (empty_db\<lparr>sessions := [\<lparr>s_id = ''s1'', s_user_id = 1, s_created_at = 0,
                             s_expires_at = 1000, s_revoked_at = Some 100\<rparr>]\<rparr>)
     200 POST (Some ''zz''))
     = empty_db\<lparr>sessions := [\<lparr>s_id = ''s1'', s_user_id = 1, s_created_at = 0,
                               s_expires_at = 1000, s_revoked_at = Some 100\<rparr>]\<rparr>"
  by (simp add: handleLogout_def revoke_session_def empty_db_def)

text \<open>
  C6. \<^verbatim>\<open>handlePostLike\<close> does not look the post up (\<^verbatim>\<open>handlePost\<close> does, and answers 404),
  and the foreign key of \<^verbatim>\<open>post_likes\<close> is not enforced. With no post in the store, a
  logged-in user's like of post 999 is answered with the redirect to the post's page and
  the row is recorded.
\<close>

theorem like_recorded_for_missing_post:
  "GetPost
     (empty_db\<lparr>users := [\<lparr>u_id = 1, u_email = ''a@b.com'', u_username = ''alice'',
                          u_password_hash = ''h'', u_created_at = 0\<rparr>],
               sessions := [\<lparr>s_id = ''t'', s_user_id = 1, s_created_at = 0,
                             s_expires_at = 100, s_revoked_at = None\<rparr>]\<rparr>) 999
     = Inl ErrNoRows
   \<and> route_post_like
     (empty_db\<lparr>users := [\<lparr>u_id = 1, u_email = ''a@b.com'', u_username = ''alice'',
                          u_password_hash = ''h'', u_created_at = 0\<rparr>],
               sessions := [\<lparr>s_id = ''t'', s_user_id = 1, s_created_at = 0,
                             s_expires_at = 100, s_revoked_at = None\<rparr>]\<rparr>)
     50 (Some ''t'') POST 999 1
     = (\<lparr>status = 303, redirect = Some (ToPost 999), set_cookie = None\<rparr>,
        empty_db\<lparr>users := [\<lparr>u_id = 1, u_email = ''a@b.com'', u_username = ''alice'',
                          u_password_hash = ''h'', u_created_at = 0\<rparr>],
               sessions := [\<lparr>s_id = ''t'', s_user_id = 1, s_created_at = 0,
                             s_expires_at = 100, s_revoked_at = None\<rparr>],
               post_likes := [\<lparr>l_target_id = 999, l_user_id = 1, l_value = 1\<rparr>]\<rparr>)"
  by (simp add: GetPost_def route_post_like_def requireAuth_def currentUser_def GetSession_def
      handlePostLike_def TogglePostLike_def toggle_upsert_def http_Redirect_def empty_db_def)

end
